theory Spec2Isabelle
  imports Main
begin

section \<open>The integration driver (intg-requests/driver.py)\<close>

text \<open>
  The driver is a set of callbacks around three collaborators: the config store
  (\<open>config.setup\<close>), the integration API object (\<open>api\<close>: the available-entity
  registry and the device state) and the logger. The model threads all three through
  one state record; every callback takes the state and returns the new one.
\<close>

subsection \<open>Values, errors, log calls\<close>

text \<open>
  The config store holds strings (ids, names) and a boolean (the standby flag) under
  string keys, so a stored value is one or the other.
\<close>

datatype cfg_value = VStr string | VBool bool

text \<open>
  The two ways \<open>startcheck\<close> can raise: a lookup of a key the store does not hold, and
  \<open>"..." + id\<close> on a value that is not a string.
\<close>

datatype error = LookupFailure string | TypeError

datatype log_level = DEBUG | INFO

text \<open>
  A log call is the level and the pieces of its message. A piece is a string, or an
  argument that the logger renders: a list of entity ids (\<open>str(entity_ids)\<close>, \<open>%s\<close>) or
  a command's parameter mapping (\<open>{_params}\<close>), of any type \<open>'p\<close>.
\<close>

datatype 'p log_piece = Str string | StrList "string list" | Dict 'p

type_synonym 'p log_call = "log_level \<times> 'p log_piece list"

subsection \<open>The config store\<close>

record config_setup =
  cmds :: "string list"
  conf :: "string \<rightharpoonup> cfg_value"

text \<open>
  Modelled from the spec: \<open>config.py\<close> (the class \<open>config.setup\<close>) is not among the
  sources. The spec describes a key-value store exposing \<open>get(key)\<close> and
  \<open>set(key, value)\<close>, where a missing key is a lookup failure.
\<close>

definition setup_get :: "config_setup \<Rightarrow> string \<Rightarrow> error + cfg_value" where
  "setup_get c key = (case conf c key of None \<Rightarrow> Inl (LookupFailure key) | Some v \<Rightarrow> Inr v)"

definition setup_set :: "string \<Rightarrow> cfg_value \<Rightarrow> config_setup \<Rightarrow> config_setup" where
  "setup_set key v c = c\<lparr>conf := (conf c)(key \<mapsto> v)\<rparr>"

subsection \<open>Entities and the framework state\<close>

datatype Features = SELECT_SOURCE

datatype handler_ref = MP_CMD_HANDLER

record MediaPlayer =
  entity_id :: string
  entity_name :: string
  features :: "Features list"
  attributes :: "(string \<times> cfg_value) list"
  cmd_handler :: handler_ref

text \<open>The framework's device states; the driver sets two of them.\<close>

datatype DeviceStates = CONNECTED | CONNECTING | DISCONNECTED | ERROR

record 'p driver_state =
  config :: config_setup
  available_entities :: "MediaPlayer list"
  device_state :: DeviceStates
  log :: "'p log_call list"

text \<open>
  Modelled from the spec: the framework's available-entity registry (\<open>ucapi\<close>, an
  external library) is kept as the list of the definitions added, in order.
  \<open>contains\<close> asks whether a definition with the id is there; \<open>add\<close> appends. Nothing
  in \<open>add\<close> prevents a second definition with the same id: whatever uniqueness holds
  comes from the driver's own check. \<open>set_device_state\<close> stores the state given.
\<close>

definition entities_contains :: "MediaPlayer list \<Rightarrow> string \<Rightarrow> bool" where
  "entities_contains reg i = (i \<in> set (map entity_id reg))"

definition entities_add :: "MediaPlayer \<Rightarrow> MediaPlayer list \<Rightarrow> MediaPlayer list" where
  "entities_add d reg = reg @ [d]"

definition set_device_state :: "DeviceStates \<Rightarrow> 'p driver_state \<Rightarrow> 'p driver_state" where
  "set_device_state st s = s\<lparr>device_state := st\<rparr>"

definition log_call :: "log_level \<Rightarrow> 'p log_piece list \<Rightarrow> 'p driver_state \<Rightarrow> 'p driver_state" where
  "log_call lvl msg s = s\<lparr>log := log s @ [(lvl, msg)]\<rparr>"

subsection \<open>Startup registration\<close>

definition add_mp :: "string \<Rightarrow> string \<Rightarrow> 'p driver_state \<Rightarrow> 'p driver_state" where
  "add_mp i n s =
     (let definition = \<lparr>entity_id = i, entity_name = n, features = [SELECT_SOURCE],
                         attributes = [], cmd_handler = MP_CMD_HANDLER\<rparr>;
          s1 = s\<lparr>available_entities := entities_add definition (available_entities s)\<rparr>
      in log_call INFO [Str (''Added media player entity with id '' @ i @ '' and name '' @ n)] s1)"

text \<open>
  One pass of the loop body of \<open>startcheck\<close>. Both lookups come first, in the source's
  order. An id that is not a string is in no registry and makes the concatenation of
  the log message raise; a name that is not a string raises only on the branch that
  concatenates it. The state returned with an error is the state at the raise.
\<close>

definition startcheck_body :: "string \<Rightarrow> 'p driver_state \<Rightarrow> error option \<times> 'p driver_state" where
  "startcheck_body cmd s =
     (case setup_get (config s) (''id-'' @ cmd) of
        Inl e \<Rightarrow> (Some e, s)
      | Inr idv \<Rightarrow>
          (case setup_get (config s) (''name-'' @ cmd) of
             Inl e \<Rightarrow> (Some e, s)
           | Inr namev \<Rightarrow>
               (case idv of
                  VBool b \<Rightarrow> (Some TypeError, s)
                | VStr i \<Rightarrow>
                    if entities_contains (available_entities s) i
                    then (None, log_call DEBUG
                            [Str (''Entity with id '' @ i @ '' is already in storage as available entity'')] s)
                    else (case namev of
                            VBool b \<Rightarrow> (Some TypeError, s)
                          | VStr n \<Rightarrow>
                              (None, add_mp i n
                                 (log_call INFO
                                    [Str (''Add entity with id '' @ i @ '' and name '' @ n
                                          @ '' as available entity'')] s))))))"

fun startcheck_loop :: "string list \<Rightarrow> 'p driver_state \<Rightarrow> error option \<times> 'p driver_state" where
  "startcheck_loop [] s = (None, s)"
| "startcheck_loop (cmd # rest) s =
     (case startcheck_body cmd s of
        (Some e, s') \<Rightarrow> (Some e, s')
      | (None, s') \<Rightarrow> startcheck_loop rest s')"

definition startcheck :: "'p driver_state \<Rightarrow> error option \<times> 'p driver_state" where
  "startcheck s = startcheck_loop (cmds (config s)) s"

subsection \<open>The command handler\<close>

text \<open>
  \<open>media_player.mp_cmd_assigner\<close> is the external dispatcher: it is a parameter, free
  to use and change the state and to yield any result \<open>'r\<close> (a status code, or a raise).
\<close>

definition mp_cmd_handler ::
  "(string \<Rightarrow> string \<Rightarrow> 'p option \<Rightarrow> 'p driver_state \<Rightarrow> 'r \<times> 'p driver_state)
   \<Rightarrow> MediaPlayer \<Rightarrow> string \<Rightarrow> 'p option \<Rightarrow> 'p driver_state \<Rightarrow> 'r \<times> 'p driver_state" where
  "mp_cmd_handler mp_cmd_assigner entity cmd_id params s =
     (let s1 = (case params of
                  None \<Rightarrow> log_call INFO
                    [Str (''Received '' @ cmd_id @ '' command for '' @ entity_id entity)] s
                | Some p \<Rightarrow> log_call INFO
                    [Str (''Received '' @ cmd_id @ '' command with parameter ''), Dict p,
                     Str ('' for '' @ entity_id entity)] s)
      in mp_cmd_assigner (entity_id entity) cmd_id params s1)"

subsection \<open>Lifecycle callbacks\<close>

definition on_r2_connect :: "'p driver_state \<Rightarrow> 'p driver_state" where
  "on_r2_connect s =
     set_device_state CONNECTED
       (log_call INFO [Str ''Received connect event message from remote''] s)"

definition on_r2_disconnect :: "'p driver_state \<Rightarrow> 'p driver_state" where
  "on_r2_disconnect s =
     set_device_state DISCONNECTED
       (log_call INFO [Str ''Received disconnect event message from remote''] s)"

definition on_r2_enter_standby :: "'p driver_state \<Rightarrow> 'p driver_state" where
  "on_r2_enter_standby s =
     (let s1 = log_call INFO [Str ''Received enter standby event message from remote''] s;
          s2 = log_call DEBUG [Str ''Set config.R2_IN_STANDBY to True''] s1
      in s2\<lparr>config := setup_set ''standby'' (VBool True) (config s2)\<rparr>)"

definition on_r2_exit_standby :: "'p driver_state \<Rightarrow> 'p driver_state" where
  "on_r2_exit_standby s =
     (let s1 = log_call INFO [Str ''Received exit standby event message from remote''] s;
          s2 = log_call DEBUG [Str ''Set config.R2_IN_STANDBY to False''] s1
      in s2\<lparr>config := setup_set ''standby'' (VBool False) (config s2)\<rparr>)"

definition on_subscribe_entities :: "string list \<Rightarrow> 'p driver_state \<Rightarrow> 'p driver_state" where
  "on_subscribe_entities entity_ids s =
     (let s1 = log_call INFO
                 [Str ''Received subscribe entities event for entity ids: '', StrList entity_ids] s
      in s1\<lparr>config := setup_set ''standby'' (VBool False) (config s1)\<rparr>)"

definition on_unsubscribe_entities :: "string list \<Rightarrow> 'p driver_state \<Rightarrow> 'p driver_state" where
  "on_unsubscribe_entities entity_ids s =
     log_call INFO [Str ''Unsubscribe entities event for entity ids: '', StrList entity_ids] s"

subsection \<open>A concrete configuration\<close>

text \<open>
  The configuration of the spec's example: commands \<open>a\<close> and \<open>b\<close>, each with an id and
  a name, nothing registered yet.
\<close>

definition example_setup :: config_setup where
  "example_setup =
     \<lparr>cmds = [''a'', ''b''],
      conf = [''id-a'' \<mapsto> VStr ''p1'', ''name-a'' \<mapsto> VStr ''Device 1'',
              ''id-b'' \<mapsto> VStr ''p2'', ''name-b'' \<mapsto> VStr ''Device 2'']\<rparr>"

definition example_state :: "unit driver_state" where
  "example_state =
     \<lparr>config = example_setup, available_entities = [], device_state = DISCONNECTED, log = []\<rparr>"

text \<open>The same configuration without the name of command \<open>b\<close>.\<close>

definition example_incomplete :: "unit driver_state" where
  "example_incomplete =
     \<lparr>config = \<lparr>cmds = [''a'', ''b''],
                 conf = [''id-a'' \<mapsto> VStr ''p1'', ''name-a'' \<mapsto> VStr ''Device 1'',
                         ''id-b'' \<mapsto> VStr ''p2'']\<rparr>,
      available_entities = [], device_state = DISCONNECTED, log = []\<rparr>"

section \<open>Facts about the startup loop\<close>

subsection \<open>One pass of the loop body\<close>

lemma startcheck_body_config: "config (snd (startcheck_body cmd s)) = config s"
  by (simp add: startcheck_body_def add_mp_def log_call_def Let_def
      split: sum.splits cfg_value.splits)

lemma startcheck_body_skip:
  assumes "conf (config s) (''id-'' @ cmd) = Some (VStr i)"
    and "conf (config s) (''name-'' @ cmd) = Some v"
    and "entities_contains (available_entities s) i"
  shows "startcheck_body cmd s =
           (None, s\<lparr>log := log s @
              [(DEBUG, [Str (''Entity with id '' @ i
                             @ '' is already in storage as available entity'')])]\<rparr>)"
  using assms by (simp add: startcheck_body_def setup_get_def log_call_def)

lemma startcheck_body_add:
  assumes "conf (config s) (''id-'' @ cmd) = Some (VStr i)"
    and "conf (config s) (''name-'' @ cmd) = Some (VStr n)"
    and "\<not> entities_contains (available_entities s) i"
  shows "startcheck_body cmd s =
           (None, s\<lparr>available_entities := available_entities s @
                      [\<lparr>entity_id = i, entity_name = n, features = [SELECT_SOURCE],
                        attributes = [], cmd_handler = MP_CMD_HANDLER\<rparr>],
                    log := log s @
                      [(INFO, [Str (''Add entity with id '' @ i @ '' and name '' @ n
                                    @ '' as available entity'')]),
                       (INFO, [Str (''Added media player entity with id '' @ i
                                    @ '' and name '' @ n)])]\<rparr>)"
  using assms
  by (simp add: startcheck_body_def setup_get_def add_mp_def entities_add_def log_call_def Let_def)

lemma startcheck_body_missing:
  assumes "conf (config s) (''id-'' @ cmd) = None \<or> conf (config s) (''name-'' @ cmd) = None"
  shows "startcheck_body cmd s =
           (Some (LookupFailure (if conf (config s) (''id-'' @ cmd) = None
                                 then ''id-'' @ cmd else ''name-'' @ cmd)), s)"
  using assms by (auto simp: startcheck_body_def setup_get_def split: option.splits)

lemma startcheck_body_raise_state:
  "fst (startcheck_body cmd s) = Some e \<Longrightarrow> snd (startcheck_body cmd s) = s"
  by (simp add: startcheck_body_def split: sum.splits cfg_value.splits if_splits)

lemma startcheck_body_same_outcome:
  assumes "config t = config s"
    and "set (map entity_id (available_entities t)) = set (map entity_id (available_entities s))"
  shows "fst (startcheck_body cmd t) = fst (startcheck_body cmd s)"
  using assms
  by (simp add: startcheck_body_def entities_contains_def split: sum.splits cfg_value.splits)

lemma startcheck_body_returned:
  assumes "fst (startcheck_body cmd s) = None"
  shows "\<exists>i v. conf (config s) (''id-'' @ cmd) = Some (VStr i)
             \<and> conf (config s) (''name-'' @ cmd) = Some v
             \<and> i \<in> set (map entity_id (available_entities (snd (startcheck_body cmd s))))"
  using assms
  by (auto simp: startcheck_body_def setup_get_def entities_contains_def add_mp_def
      entities_add_def log_call_def Let_def
      split: option.splits cfg_value.splits if_splits)

lemma startcheck_body_grows:
  "set (map entity_id (available_entities s))
     \<subseteq> set (map entity_id (available_entities (snd (startcheck_body cmd s))))"
  by (auto simp: startcheck_body_def add_mp_def entities_add_def log_call_def Let_def
      split: sum.splits cfg_value.splits)

lemma startcheck_body_distinct:
  "distinct (map entity_id (available_entities s))
     \<Longrightarrow> distinct (map entity_id (available_entities (snd (startcheck_body cmd s))))"
  by (auto simp: startcheck_body_def add_mp_def entities_add_def entities_contains_def
      log_call_def Let_def split: sum.splits cfg_value.splits)

subsection \<open>The loop\<close>

lemma startcheck_loop_Cons_raise:
  "fst (startcheck_body cmd s) = Some e \<Longrightarrow> startcheck_loop (cmd # rest) s = (Some e, s)"
  using startcheck_body_raise_state [of cmd s e]
  by (cases "startcheck_body cmd s") simp

lemma startcheck_loop_Cons_returned:
  "fst (startcheck_body cmd s) = None
     \<Longrightarrow> startcheck_loop (cmd # rest) s = startcheck_loop rest (snd (startcheck_body cmd s))"
  by (cases "startcheck_body cmd s") simp

lemma startcheck_loop_append:
  "startcheck_loop (xs @ ys) s =
     (case startcheck_loop xs s of
        (Some e, s') \<Rightarrow> (Some e, s')
      | (None, s') \<Rightarrow> startcheck_loop ys s')"
  by (induction xs arbitrary: s) (auto split: prod.splits option.splits)

declare startcheck_loop.simps(2) [simp del]

lemma startcheck_loop_config: "config (snd (startcheck_loop xs s)) = config s"
proof (induction xs arbitrary: s)
  case Nil
  show ?case by simp
next
  case (Cons x xs)
  show ?case
  proof (cases "fst (startcheck_body x s)")
    case None
    then show ?thesis
      by (simp add: startcheck_loop_Cons_returned Cons.IH startcheck_body_config)
  next
    case (Some e)
    then show ?thesis by (simp add: startcheck_loop_Cons_raise)
  qed
qed

lemma startcheck_loop_grows:
  "set (map entity_id (available_entities s))
     \<subseteq> set (map entity_id (available_entities (snd (startcheck_loop xs s))))"
proof (induction xs arbitrary: s)
  case Nil
  show ?case by simp
next
  case (Cons x xs)
  show ?case
  proof (cases "fst (startcheck_body x s)")
    case None
    have "set (map entity_id (available_entities s))
            \<subseteq> set (map entity_id (available_entities (snd (startcheck_body x s))))"
      by (rule startcheck_body_grows)
    also have "\<dots> \<subseteq> set (map entity_id (available_entities
                        (snd (startcheck_loop xs (snd (startcheck_body x s))))))"
      by (rule Cons.IH)
    finally show ?thesis by (simp add: startcheck_loop_Cons_returned None)
  next
    case (Some e)
    then show ?thesis by (simp add: startcheck_loop_Cons_raise)
  qed
qed

lemma startcheck_loop_distinct:
  "distinct (map entity_id (available_entities s))
     \<Longrightarrow> distinct (map entity_id (available_entities (snd (startcheck_loop xs s))))"
proof (induction xs arbitrary: s)
  case Nil
  then show ?case by simp
next
  case (Cons x xs)
  show ?case
  proof (cases "fst (startcheck_body x s)")
    case None
    with Cons.prems show ?thesis
      by (simp add: startcheck_loop_Cons_returned Cons.IH startcheck_body_distinct)
  next
    case (Some e)
    with Cons.prems show ?thesis by (simp add: startcheck_loop_Cons_raise)
  qed
qed

lemma startcheck_loop_returns:
  assumes "\<forall>cmd\<in>set xs. \<exists>i n. conf (config s) (''id-'' @ cmd) = Some (VStr i)
                               \<and> conf (config s) (''name-'' @ cmd) = Some (VStr n)"
  shows "fst (startcheck_loop xs s) = None
       \<and> set (map entity_id (available_entities (snd (startcheck_loop xs s))))
           = set (map entity_id (available_entities s))
             \<union> {i. \<exists>cmd\<in>set xs. conf (config s) (''id-'' @ cmd) = Some (VStr i)}"
  using assms
proof (induction xs arbitrary: s)
  case Nil
  then show ?case by simp
next
  case (Cons x xs)
  from Cons.prems obtain i n
    where idx: "conf (config s) (''id-'' @ x) = Some (VStr i)"
      and nmx: "conf (config s) (''name-'' @ x) = Some (VStr n)"
    by auto
  define s' where "s' = snd (startcheck_body x s)"
  have ret: "fst (startcheck_body x s) = None"
    and ids: "set (map entity_id (available_entities s'))
                = insert i (set (map entity_id (available_entities s)))"
    unfolding s'_def
    using startcheck_body_skip [OF idx nmx] startcheck_body_add [OF idx nmx]
    by (cases "entities_contains (available_entities s) i"; auto simp: entities_contains_def)+
  have cfg: "config s' = config s"
    by (simp add: s'_def startcheck_body_config)
  have loop: "startcheck_loop (x # xs) s = startcheck_loop xs s'"
    unfolding s'_def by (rule startcheck_loop_Cons_returned [OF ret])
  have new: "{j. \<exists>cmd\<in>set (x # xs). conf (config s) (''id-'' @ cmd) = Some (VStr j)}
               = insert i {j. \<exists>cmd\<in>set xs. conf (config s) (''id-'' @ cmd) = Some (VStr j)}"
    using idx by auto
  have ih: "fst (startcheck_loop xs s') = None
       \<and> set (map entity_id (available_entities (snd (startcheck_loop xs s'))))
           = set (map entity_id (available_entities s'))
             \<union> {i. \<exists>cmd\<in>set xs. conf (config s') (''id-'' @ cmd) = Some (VStr i)}"
    using Cons.prems by (intro Cons.IH) (simp add: cfg)
  show ?case
    using ih unfolding loop new cfg ids by auto
qed

lemma startcheck_loop_missing_raises:
  assumes "cmd \<in> set xs"
    and "conf (config s) (''id-'' @ cmd) = None \<or> conf (config s) (''name-'' @ cmd) = None"
  shows "\<exists>e. fst (startcheck_loop xs s) = Some e"
  using assms
proof (induction xs arbitrary: s)
  case Nil
  then show ?case by simp
next
  case (Cons x xs)
  show ?case
  proof (cases "fst (startcheck_body x s)")
    case (Some e)
    then show ?thesis by (simp add: startcheck_loop_Cons_raise)
  next
    case None
    with Cons.prems(2) have "x \<noteq> cmd"
      by (auto simp: startcheck_body_missing)
    with Cons.prems have "cmd \<in> set xs" by simp
    moreover have "config (snd (startcheck_body x s)) = config s"
      by (rule startcheck_body_config)
    ultimately have "\<exists>e. fst (startcheck_loop xs (snd (startcheck_body x s))) = Some e"
      using Cons.prems(2) by (intro Cons.IH) simp_all
    then show ?thesis by (simp add: startcheck_loop_Cons_returned [OF None])
  qed
qed

lemma startcheck_loop_rerun:
  assumes "config t = config s"
    and "set (map entity_id (available_entities t))
           = set (map entity_id (available_entities (snd (startcheck_loop xs s))))"
  shows "\<exists>ds. startcheck_loop xs t = (fst (startcheck_loop xs s), t\<lparr>log := log t @ ds\<rparr>)
               \<and> list_all (\<lambda>c. fst c = DEBUG) ds"
  using assms
proof (induction xs arbitrary: s t)
  case Nil
  have "startcheck_loop [] t = (fst (startcheck_loop [] s), t\<lparr>log := log t @ []\<rparr>)
         \<and> list_all (\<lambda>c. fst c = DEBUG) ([] :: 'a log_call list)"
    by simp
  then show ?case by blast
next
  case (Cons x xs)
  show ?case
  proof (cases "fst (startcheck_body x s)")
    case (Some e)
    then have s: "startcheck_loop (x # xs) s = (Some e, s)"
      by (rule startcheck_loop_Cons_raise)
    with Cons.prems have "fst (startcheck_body x t) = Some e"
      by (simp add: startcheck_body_same_outcome [of t s] Some)
    then have "startcheck_loop (x # xs) t = (Some e, t)"
      by (rule startcheck_loop_Cons_raise)
    with s have "startcheck_loop (x # xs) t
                   = (fst (startcheck_loop (x # xs) s), t\<lparr>log := log t @ []\<rparr>)
                 \<and> list_all (\<lambda>c. fst c = DEBUG) ([] :: 'a log_call list)"
      by simp
    then show ?thesis by blast
  next
    case None
    define s' where "s' = snd (startcheck_body x s)"
    have s: "startcheck_loop (x # xs) s = startcheck_loop xs s'"
      unfolding s'_def by (rule startcheck_loop_Cons_returned [OF None])
    from startcheck_body_returned [OF None] obtain i v
      where idx: "conf (config s) (''id-'' @ x) = Some (VStr i)"
        and nmx: "conf (config s) (''name-'' @ x) = Some v"
        and ins: "i \<in> set (map entity_id (available_entities s'))"
      unfolding s'_def by blast
    have "set (map entity_id (available_entities s'))
            \<subseteq> set (map entity_id (available_entities (snd (startcheck_loop xs s'))))"
      by (rule startcheck_loop_grows)
    with ins Cons.prems(2) have "entities_contains (available_entities t) i"
      by (auto simp: entities_contains_def s)
    define dbg :: "'a log_call"
      where "dbg = (DEBUG, [Str (''Entity with id '' @ i
                                   @ '' is already in storage as available entity'')])"
    define t' where "t' = t\<lparr>log := log t @ [dbg]\<rparr>"
    have t: "startcheck_body x t = (None, t')"
      unfolding t'_def dbg_def
      using idx nmx \<open>entities_contains (available_entities t) i\<close> Cons.prems(1)
      by (intro startcheck_body_skip) simp_all
    have tl: "startcheck_loop (x # xs) t = startcheck_loop xs t'"
      by (simp add: startcheck_loop.simps(2) t)
    have "config t' = config s'"
      by (simp add: t'_def s'_def startcheck_body_config Cons.prems(1))
    moreover have "set (map entity_id (available_entities t'))
           = set (map entity_id (available_entities (snd (startcheck_loop xs s'))))"
      using Cons.prems(2) by (simp add: t'_def s)
    ultimately obtain ds
      where run: "startcheck_loop xs t' = (fst (startcheck_loop xs s'), t'\<lparr>log := log t' @ ds\<rparr>)"
        and alld: "list_all (\<lambda>c. fst c = DEBUG) ds"
      using Cons.IH [of t' s'] by blast
    have "startcheck_loop (x # xs) t
            = (fst (startcheck_loop (x # xs) s), t\<lparr>log := log t @ (dbg # ds)\<rparr>)
          \<and> list_all (\<lambda>c. fst c = DEBUG) (dbg # ds)"
      using run alld by (simp add: tl s t'_def dbg_def)
    then show ?thesis by blast
  qed
qed

lemma distinct_member_once:
  "distinct (map f xs) \<Longrightarrow> y \<in> set (map f xs) \<Longrightarrow> length (filter (\<lambda>x. f x = y) xs) = 1"
  by (induction xs) (auto simp: filter_empty_conv image_iff)

section \<open>Properties of the callbacks\<close>

text \<open>
  C1. For every command of the configured list, \<open>startcheck\<close> looks up the id and the
  name; with both there as strings, one pass of the loop body skips the command with a
  single debug note when an entity with the id is already available, and otherwise
  appends the entity definition with that id and name. When every configured command
  has its id and name and no id is available twice at the start, \<open>startcheck\<close> returns,
  the available ids are the earlier ones and the configured ones, and every configured
  id is then the id of exactly one available entity.
\<close>

theorem startcheck_registers_each_id_once:
  assumes cfg: "\<forall>cmd\<in>set (cmds (config s)).
                  \<exists>i n. conf (config s) (''id-'' @ cmd) = Some (VStr i)
                      \<and> conf (config s) (''name-'' @ cmd) = Some (VStr n)"
    and dist: "distinct (map entity_id (available_entities s))"
  shows "fst (startcheck s) = None
       \<and> (\<forall>cmd\<in>set (cmds (config s)). \<forall>i.
            conf (config s) (''id-'' @ cmd) = Some (VStr i) \<longrightarrow>
            length (filter (\<lambda>e. entity_id e = i) (available_entities (snd (startcheck s)))) = 1)
       \<and> set (map entity_id (available_entities (snd (startcheck s))))
           = set (map entity_id (available_entities s))
             \<union> {i. \<exists>cmd\<in>set (cmds (config s)). conf (config s) (''id-'' @ cmd) = Some (VStr i)}
       \<and> (\<forall>cmd (t :: 'a driver_state) i n.
            conf (config t) (''id-'' @ cmd) = Some (VStr i)
            \<and> conf (config t) (''name-'' @ cmd) = Some (VStr n) \<longrightarrow>
            startcheck_body cmd t =
              (if entities_contains (available_entities t) i
               then (None, t\<lparr>log := log t @
                      [(DEBUG, [Str (''Entity with id '' @ i
                                     @ '' is already in storage as available entity'')])]\<rparr>)
               else (None, t\<lparr>available_entities := available_entities t @
                              [\<lparr>entity_id = i, entity_name = n, features = [SELECT_SOURCE],
                                attributes = [], cmd_handler = MP_CMD_HANDLER\<rparr>],
                            log := log t @
                              [(INFO, [Str (''Add entity with id '' @ i @ '' and name '' @ n
                                            @ '' as available entity'')]),
                               (INFO, [Str (''Added media player entity with id '' @ i
                                            @ '' and name '' @ n)])]\<rparr>)))"
proof -
  let ?s' = "snd (startcheck s)"
  have ret: "fst (startcheck s) = None"
    and ids: "set (map entity_id (available_entities ?s'))
           = set (map entity_id (available_entities s))
             \<union> {i. \<exists>cmd\<in>set (cmds (config s)). conf (config s) (''id-'' @ cmd) = Some (VStr i)}"
    using startcheck_loop_returns [OF cfg] by (simp_all add: startcheck_def)
  have dist': "distinct (map entity_id (available_entities ?s'))"
    unfolding startcheck_def by (rule startcheck_loop_distinct [OF dist])
  have once: "length (filter (\<lambda>e. entity_id e = i) (available_entities ?s')) = 1"
    if "cmd \<in> set (cmds (config s))" and "conf (config s) (''id-'' @ cmd) = Some (VStr i)"
    for cmd i
  proof -
    from that have "i \<in> set (map entity_id (available_entities ?s'))"
      unfolding ids by blast
    with dist' show ?thesis by (rule distinct_member_once)
  qed
  have body: "startcheck_body cmd t =
              (if entities_contains (available_entities t) i
               then (None, t\<lparr>log := log t @
                      [(DEBUG, [Str (''Entity with id '' @ i
                                     @ '' is already in storage as available entity'')])]\<rparr>)
               else (None, t\<lparr>available_entities := available_entities t @
                              [\<lparr>entity_id = i, entity_name = n, features = [SELECT_SOURCE],
                                attributes = [], cmd_handler = MP_CMD_HANDLER\<rparr>],
                            log := log t @
                              [(INFO, [Str (''Add entity with id '' @ i @ '' and name '' @ n
                                            @ '' as available entity'')]),
                               (INFO, [Str (''Added media player entity with id '' @ i
                                            @ '' and name '' @ n)])]\<rparr>))"
    if "conf (config t) (''id-'' @ cmd) = Some (VStr i)"
      and "conf (config t) (''name-'' @ cmd) = Some (VStr n)"
    for cmd i n and t :: "'a driver_state"
    using that startcheck_body_skip [of t cmd i "VStr n"] startcheck_body_add [of t cmd i n]
    by (cases "entities_contains (available_entities t) i") simp_all
  from ret once ids body show ?thesis by blast
qed

text \<open>
  The spec's example: commands \<open>a\<close> and \<open>b\<close>, ids \<open>p1\<close> and \<open>p2\<close>, nothing registered
  at the start. Both ids are registered, each once.
\<close>

theorem startcheck_registers_each_id_once_witness:
  "fst (startcheck example_state) = None
   \<and> length (filter (\<lambda>e. entity_id e = ''p1'')
               (available_entities (snd (startcheck example_state)))) = 1
   \<and> length (filter (\<lambda>e. entity_id e = ''p2'')
               (available_entities (snd (startcheck example_state)))) = 1
   \<and> set (map entity_id (available_entities (snd (startcheck example_state))))
       = {''p1'', ''p2''}"
proof -
  have cfg: "\<forall>cmd\<in>set (cmds (config example_state)).
               \<exists>i n. conf (config example_state) (''id-'' @ cmd) = Some (VStr i)
                   \<and> conf (config example_state) (''name-'' @ cmd) = Some (VStr n)"
    by (simp add: example_state_def example_setup_def)
  have dist: "distinct (map entity_id (available_entities example_state))"
    by (simp add: example_state_def)
  have a: "''a'' \<in> set (cmds (config example_state))"
    and b: "''b'' \<in> set (cmds (config example_state))"
    and ia: "conf (config example_state) (''id-'' @ ''a'') = Some (VStr ''p1'')"
    and ib: "conf (config example_state) (''id-'' @ ''b'') = Some (VStr ''p2'')"
    by (simp_all add: example_state_def example_setup_def)
  have new: "{i. \<exists>cmd\<in>set (cmds (config example_state)).
                conf (config example_state) (''id-'' @ cmd) = Some (VStr i)} = {''p1'', ''p2''}"
    by (auto simp: example_state_def example_setup_def)
  note reg = startcheck_registers_each_id_once [OF cfg dist]
  from reg have "fst (startcheck example_state) = None" by blast
  moreover from reg a ia have "length (filter (\<lambda>e. entity_id e = ''p1'')
               (available_entities (snd (startcheck example_state)))) = 1" by blast
  moreover from reg b ib have "length (filter (\<lambda>e. entity_id e = ''p2'')
               (available_entities (snd (startcheck example_state)))) = 1" by blast
  moreover from reg have "set (map entity_id (available_entities (snd (startcheck example_state))))
       = set (map entity_id (available_entities example_state)) \<union> {''p1'', ''p2''}"
    unfolding new by blast
  then have "set (map entity_id (available_entities (snd (startcheck example_state))))
       = {''p1'', ''p2''}"
    by (simp add: example_state_def)
  ultimately show ?thesis by blast
qed

text \<open>
  C2. The command handler returns exactly what the dispatcher returns for
  \<open>(entity.id, cmd_id, _params)\<close>: the handler's only own step is one log call before the
  dispatcher runs, whether the parameters are \<open>None\<close> or a mapping.
\<close>

theorem mp_cmd_handler_relays_assigner:
  "mp_cmd_handler mp_cmd_assigner entity cmd_id params s
     = mp_cmd_assigner (entity_id entity) cmd_id params
         (log_call INFO
            (case params of
               None \<Rightarrow> [Str (''Received '' @ cmd_id @ '' command for '' @ entity_id entity)]
             | Some p \<Rightarrow> [Str (''Received '' @ cmd_id @ '' command with parameter ''), Dict p,
                           Str ('' for '' @ entity_id entity)]) s)"
  by (cases params) (simp_all add: mp_cmd_handler_def)

text \<open>
  C3. From any state, a lookup of the standby flag gives true after the enter-standby
  handler, false after the exit-standby handler and false after the subscribe-entities
  handler.
\<close>

theorem standby_handlers_set_flag:
  "setup_get (config (on_r2_enter_standby s)) ''standby'' = Inr (VBool True)
   \<and> setup_get (config (on_r2_exit_standby s)) ''standby'' = Inr (VBool False)
   \<and> setup_get (config (on_subscribe_entities entity_ids s)) ''standby'' = Inr (VBool False)"
  by (simp add: on_r2_enter_standby_def on_r2_exit_standby_def on_subscribe_entities_def
      setup_get_def setup_set_def log_call_def Let_def)

text \<open>
  C4. The data-model sentence has the subscribe-entities event set the flag to true.
  It does not: after the subscribe-entities handler on the example state the flag is
  not true.
\<close>

theorem subscribe_sets_standby_true_counterexample:
  "setup_get (config (on_subscribe_entities [''p1''] example_state)) ''standby''
     \<noteq> Inr (VBool True)"
  by (simp add: on_subscribe_entities_def setup_get_def setup_set_def log_call_def Let_def)

text \<open>
  C4, amended. The entry of the store under \<open>standby\<close> is true after the enter-standby
  event, and false after the subscribe-entities event and after the exit-standby event.
\<close>

theorem standby_flag_by_event:
  "conf (config (on_r2_enter_standby s)) ''standby'' = Some (VBool True)
   \<and> conf (config (on_subscribe_entities entity_ids s)) ''standby'' = Some (VBool False)
   \<and> conf (config (on_r2_exit_standby s)) ''standby'' = Some (VBool False)"
  by (simp add: on_r2_enter_standby_def on_r2_exit_standby_def on_subscribe_entities_def
      setup_set_def log_call_def Let_def)

text \<open>
  C5. Running \<open>startcheck\<close> a second time, on the state the first run left, leaves the
  available entities and the config store as the first run left them and ends as the
  first run ended; everything the second run logs is a debug note of a skipped command,
  so it adds nothing.
\<close>

theorem startcheck_twice_same_entities:
  "available_entities (snd (startcheck (snd (startcheck s))))
     = available_entities (snd (startcheck s))
   \<and> config (snd (startcheck (snd (startcheck s)))) = config (snd (startcheck s))
   \<and> fst (startcheck (snd (startcheck s))) = fst (startcheck s)
   \<and> list_all (\<lambda>c. fst c = DEBUG)
       (drop (length (log (snd (startcheck s)))) (log (snd (startcheck (snd (startcheck s))))))"
proof -
  define t where "t = snd (startcheck s)"
  have cfg: "config t = config s"
    by (simp add: t_def startcheck_def startcheck_loop_config)
  have "set (map entity_id (available_entities t))
          = set (map entity_id (available_entities (snd (startcheck_loop (cmds (config s)) s))))"
    by (simp add: t_def startcheck_def)
  with cfg obtain ds
    where run: "startcheck_loop (cmds (config s)) t
                  = (fst (startcheck_loop (cmds (config s)) s), t\<lparr>log := log t @ ds\<rparr>)"
      and alld: "list_all (\<lambda>c. fst c = DEBUG) ds"
    using startcheck_loop_rerun [of t s "cmds (config s)"] by blast
  have "startcheck t = (fst (startcheck s), t\<lparr>log := log t @ ds\<rparr>)"
    using run by (simp add: startcheck_def cfg)
  with alld show ?thesis
    unfolding t_def [symmetric] by simp
qed

text \<open>
  C6. For any list of entity ids, the unsubscribe-entities handler appends one log call
  and changes nothing else: the config store, the available entities and the device
  state are those of the state before.
\<close>

theorem unsubscribe_only_logs:
  "on_unsubscribe_entities entity_ids s
     = s\<lparr>log := log s @ [(INFO, [Str ''Unsubscribe entities event for entity ids: '',
                                   StrList entity_ids])]\<rparr>
   \<and> config (on_unsubscribe_entities entity_ids s) = config s
   \<and> available_entities (on_unsubscribe_entities entity_ids s) = available_entities s
   \<and> device_state (on_unsubscribe_entities entity_ids s) = device_state s"
  by (simp add: on_unsubscribe_entities_def log_call_def)

text \<open>
  C7. The connect handler sets the device state to connected and the disconnect handler
  sets it to disconnected; apart from the one log call each, the rest of the state (the
  config store, the available entities) is unchanged.
\<close>

theorem connect_disconnect_set_device_state:
  "on_r2_connect s
     = s\<lparr>device_state := CONNECTED,
          log := log s @ [(INFO, [Str ''Received connect event message from remote''])]\<rparr>
   \<and> on_r2_disconnect s
     = s\<lparr>device_state := DISCONNECTED,
          log := log s @ [(INFO, [Str ''Received disconnect event message from remote''])]\<rparr>"
  by (simp add: on_r2_connect_def on_r2_disconnect_def set_device_state_def log_call_def)

text \<open>
  C8. When some configured command has no entry under its id key or its name key,
  \<open>startcheck\<close> does not return: it ends with an error. When the commands before it
  pass without a raise, the error is the lookup failure of that command's first missing
  key, and the state is the one reached just before it: nothing is caught or undone.
\<close>

theorem startcheck_lookup_failure_propagates:
  assumes "cmd \<in> set (cmds (config s))"
    and "conf (config s) (''id-'' @ cmd) = None \<or> conf (config s) (''name-'' @ cmd) = None"
  shows "(\<exists>e. fst (startcheck s) = Some e)
       \<and> (\<forall>pre post.
            cmds (config s) = pre @ cmd # post \<and> fst (startcheck_loop pre s) = None \<longrightarrow>
            startcheck s =
              (Some (LookupFailure (if conf (config s) (''id-'' @ cmd) = None
                                    then ''id-'' @ cmd else ''name-'' @ cmd)),
               snd (startcheck_loop pre s)))"
proof -
  have raises: "\<exists>e. fst (startcheck s) = Some e"
    unfolding startcheck_def using assms by (rule startcheck_loop_missing_raises)
  have first: "startcheck s =
              (Some (LookupFailure (if conf (config s) (''id-'' @ cmd) = None
                                    then ''id-'' @ cmd else ''name-'' @ cmd)),
               snd (startcheck_loop pre s))"
    if split: "cmds (config s) = pre @ cmd # post" and pre: "fst (startcheck_loop pre s) = None"
    for pre post
  proof -
    define s' where "s' = snd (startcheck_loop pre s)"
    have cfg: "config s' = config s"
      by (simp add: s'_def startcheck_loop_config)
    from pre have pre': "startcheck_loop pre s = (None, s')"
      by (simp add: s'_def prod_eq_iff)
    have "startcheck_body cmd s' =
            (Some (LookupFailure (if conf (config s) (''id-'' @ cmd) = None
                                  then ''id-'' @ cmd else ''name-'' @ cmd)), s')"
      using startcheck_body_missing [of s' cmd] assms(2) by (simp add: cfg)
    then have "startcheck_loop (cmd # post) s' =
            (Some (LookupFailure (if conf (config s) (''id-'' @ cmd) = None
                                  then ''id-'' @ cmd else ''name-'' @ cmd)), s')"
      by (simp add: startcheck_loop.simps(2))
    then show ?thesis
      by (simp add: startcheck_def split startcheck_loop_append pre' s'_def [symmetric])
  qed
  from raises first show ?thesis by blast
qed

text \<open>
  With command \<open>b\<close> lacking its name, \<open>startcheck\<close> registers \<open>p1\<close> for command \<open>a\<close> and
  then ends with the lookup failure of \<open>name-b\<close>.
\<close>

theorem startcheck_lookup_failure_propagates_witness:
  "startcheck example_incomplete =
     (Some (LookupFailure ''name-b''),
      example_incomplete
        \<lparr>available_entities :=
           [\<lparr>entity_id = ''p1'', entity_name = ''Device 1'', features = [SELECT_SOURCE],
             attributes = [], cmd_handler = MP_CMD_HANDLER\<rparr>],
         log := [(INFO, [Str ''Add entity with id p1 and name Device 1 as available entity'']),
                 (INFO, [Str ''Added media player entity with id p1 and name Device 1''])]\<rparr>)"
proof -
  have inb: "''b'' \<in> set (cmds (config example_incomplete))"
    by (simp add: example_incomplete_def)
  have miss: "conf (config example_incomplete) (''id-'' @ ''b'') = None
            \<or> conf (config example_incomplete) (''name-'' @ ''b'') = None"
    by (simp add: example_incomplete_def)
  have split: "cmds (config example_incomplete) = [''a''] @ ''b'' # []"
    by (simp add: example_incomplete_def)
  have pre: "startcheck_loop [''a''] example_incomplete =
     (None,
      example_incomplete
        \<lparr>available_entities :=
           [\<lparr>entity_id = ''p1'', entity_name = ''Device 1'', features = [SELECT_SOURCE],
             attributes = [], cmd_handler = MP_CMD_HANDLER\<rparr>],
         log := [(INFO, [Str ''Add entity with id p1 and name Device 1 as available entity'']),
                 (INFO, [Str ''Added media player entity with id p1 and name Device 1''])]\<rparr>)"
    by (simp add: startcheck_loop.simps(2) startcheck_body_def setup_get_def
        entities_contains_def add_mp_def entities_add_def log_call_def Let_def
        example_incomplete_def)
  have idb: "conf (config example_incomplete) ''id-b'' = Some (VStr ''p2'')"
    by (simp add: example_incomplete_def)
  have ret: "fst (startcheck_loop [''a''] example_incomplete) = None"
    by (simp add: pre)
  from startcheck_lookup_failure_propagates [OF inb miss]
  have "cmds (config example_incomplete) = [''a''] @ ''b'' # []
          \<and> fst (startcheck_loop [''a''] example_incomplete) = None \<longrightarrow>
        startcheck example_incomplete =
          (Some (LookupFailure (if conf (config example_incomplete) (''id-'' @ ''b'') = None
                                then ''id-'' @ ''b'' else ''name-'' @ ''b'')),
           snd (startcheck_loop [''a''] example_incomplete))"
    by blast
  with split ret
  have "startcheck example_incomplete =
          (Some (LookupFailure (if conf (config example_incomplete) (''id-'' @ ''b'') = None
                                then ''id-'' @ ''b'' else ''name-'' @ ''b'')),
           snd (startcheck_loop [''a''] example_incomplete))"
    by blast
  then show ?thesis
    by (simp add: pre idb)
qed

text \<open>
  C9. Each of the six lifecycle handlers is idempotent on the config store and the
  device state: running it twice from any state leaves both as running it once does.
\<close>

theorem lifecycle_handlers_idempotent:
  "config (on_r2_connect (on_r2_connect s)) = config (on_r2_connect s)
   \<and> device_state (on_r2_connect (on_r2_connect s)) = device_state (on_r2_connect s)
   \<and> config (on_r2_disconnect (on_r2_disconnect s)) = config (on_r2_disconnect s)
   \<and> device_state (on_r2_disconnect (on_r2_disconnect s)) = device_state (on_r2_disconnect s)
   \<and> config (on_r2_enter_standby (on_r2_enter_standby s)) = config (on_r2_enter_standby s)
   \<and> device_state (on_r2_enter_standby (on_r2_enter_standby s))
       = device_state (on_r2_enter_standby s)
   \<and> config (on_r2_exit_standby (on_r2_exit_standby s)) = config (on_r2_exit_standby s)
   \<and> device_state (on_r2_exit_standby (on_r2_exit_standby s))
       = device_state (on_r2_exit_standby s)
   \<and> config (on_subscribe_entities entity_ids (on_subscribe_entities entity_ids s))
       = config (on_subscribe_entities entity_ids s)
   \<and> device_state (on_subscribe_entities entity_ids (on_subscribe_entities entity_ids s))
       = device_state (on_subscribe_entities entity_ids s)
   \<and> config (on_unsubscribe_entities entity_ids (on_unsubscribe_entities entity_ids s))
       = config (on_unsubscribe_entities entity_ids s)
   \<and> device_state (on_unsubscribe_entities entity_ids (on_unsubscribe_entities entity_ids s))
       = device_state (on_unsubscribe_entities entity_ids s)"
  by (simp add: on_r2_connect_def on_r2_disconnect_def on_r2_enter_standby_def
      on_r2_exit_standby_def on_subscribe_entities_def on_unsubscribe_entities_def
      set_device_state_def setup_set_def log_call_def Let_def)

text \<open>
  C10. For any two lists of entity ids, the subscribe-entities handler leaves the same
  config store, available entities and device state, and so does the
  unsubscribe-entities handler: the list reaches the log only.
\<close>

theorem entity_ids_only_reach_the_log:
  "config (on_subscribe_entities ids s) = config (on_subscribe_entities ids' s)
   \<and> available_entities (on_subscribe_entities ids s)
       = available_entities (on_subscribe_entities ids' s)
   \<and> device_state (on_subscribe_entities ids s) = device_state (on_subscribe_entities ids' s)
   \<and> config (on_unsubscribe_entities ids s) = config (on_unsubscribe_entities ids' s)
   \<and> available_entities (on_unsubscribe_entities ids s)
       = available_entities (on_unsubscribe_entities ids' s)
   \<and> device_state (on_unsubscribe_entities ids s) = device_state (on_unsubscribe_entities ids' s)"
  by (simp add: on_subscribe_entities_def on_unsubscribe_entities_def setup_set_def
      log_call_def Let_def)

end
